theory Spec2Isabelle
  imports Complex_Main "HOL-Library.Word"
begin

unbundle bit_operations_syntax

section \<open>JavaScript values\<close>

text \<open>
  The library is TypeScript, but \<open>generateAPIKey\<close> checks the run-time type of every
  option itself (\<open>typeof keyPrefix !== "string"\<close>, \<open>typeof shortTokenLength !== "number"\<close>),
  so an option is modelled as a JavaScript value of any type. A number is a rational, or
  one of the three non-finite doubles; every double is one of these. A string is its
  sequence of UTF-8 bytes: \<open>_\<close>, the only character the code searches for, is a single
  byte that never occurs inside a longer UTF-8 sequence, and the digest is taken over the
  UTF-8 bytes.
\<close>

datatype jsnumber = Finite rat | NaN | PosInfinity | NegInfinity

datatype jsval =
    JUndefined
  | JNull
  | JBoolean bool
  | JNumber jsnumber
  | JString string
  | JObject

text \<open>Truthiness, as \<open>!v\<close>, \<open>v && e\<close> and \<open>v ? a : b\<close> test it.\<close>

fun truthy :: "jsval \<Rightarrow> bool" where
  "truthy JUndefined = False"
| "truthy JNull = False"
| "truthy (JBoolean b) = b"
| "truthy (JNumber (Finite q)) = (q \<noteq> 0)"
| "truthy (JNumber NaN) = False"
| "truthy (JNumber PosInfinity) = True"
| "truthy (JNumber NegInfinity) = True"
| "truthy (JString s) = (s \<noteq> [])"
| "truthy JObject = True"

text \<open>\<open>v ?? d\<close>: the default replaces \<open>undefined\<close> and \<open>null\<close> only.\<close>

fun nullish :: "jsval \<Rightarrow> jsval \<Rightarrow> jsval" where
  "nullish JUndefined d = d"
| "nullish JNull d = d"
| "nullish v d = v"

text \<open>\<open>n < k\<close> and \<open>n > k\<close> on a number \<open>n\<close>; every comparison with NaN is false.\<close>

fun num_less :: "jsnumber \<Rightarrow> rat \<Rightarrow> bool" where
  "num_less (Finite q) k = (q < k)"
| "num_less NaN k = False"
| "num_less PosInfinity k = False"
| "num_less NegInfinity k = True"

fun num_greater :: "jsnumber \<Rightarrow> rat \<Rightarrow> bool" where
  "num_greater (Finite q) k = (k < q)"
| "num_greater NaN k = False"
| "num_greater PosInfinity k = True"
| "num_greater NegInfinity k = False"

text \<open>
  Conversion of a length argument to an integer, as lodash's \<open>toInteger\<close> and the
  \<open>ToIntegerOrInfinity\<close> of \<open>String.prototype.slice\<close> do it: \<open>undefined\<close>, \<open>null\<close> and NaN
  give 0, a boolean 0 or 1, a finite number is truncated towards zero. The two functions
  differ on the infinities, and strings and objects are parsed; these values are outside
  the model (\<open>None\<close>), and \<open>generateAPIKey_modelled\<close> below shows that none of them
  reaches a conversion.
\<close>

definition trunc :: "rat \<Rightarrow> int" where
  "trunc q = (if 0 \<le> q then \<lfloor>q\<rfloor> else \<lceil>q\<rceil>)"

fun toInteger :: "jsval \<Rightarrow> int option" where
  "toInteger JUndefined = Some 0"
| "toInteger JNull = Some 0"
| "toInteger (JBoolean b) = Some (if b then 1 else 0)"
| "toInteger (JNumber (Finite q)) = Some (trunc q)"
| "toInteger (JNumber NaN) = Some 0"
| "toInteger (JNumber PosInfinity) = None"
| "toInteger (JNumber NegInfinity) = None"
| "toInteger (JString s) = None"
| "toInteger JObject = None"

text \<open>\<open>`${v}`\<close> on a string is the string; other values are outside the model.\<close>

fun toString :: "jsval \<Rightarrow> string option" where
  "toString (JString s) = Some s"
| "toString v = None"

section \<open>Strings and arrays\<close>

text \<open>\<open>s.split(sep)\<close> for a one-character separator: never the empty array.\<close>

fun split :: "char \<Rightarrow> string \<Rightarrow> string list" where
  "split sep [] = [] # []"
| "split sep (c # cs) =
     (if c = sep then [] # split sep cs
      else (case split sep cs of
              [] \<Rightarrow> [c] # []
            | x # xs \<Rightarrow> (c # x) # xs))"

text \<open>
  \<open>xs.slice(start, end)\<close> of arrays and strings: a negative index counts from the end,
  both indices are clamped to the length, and a missing \<open>end\<close> is the length.
\<close>

definition relative_index :: "int \<Rightarrow> int \<Rightarrow> int" where
  "relative_index len i = (if i < 0 then max (len + i) 0 else min i len)"

definition slice_js :: "'a list \<Rightarrow> int \<Rightarrow> int option \<Rightarrow> 'a list" where
  "slice_js xs start end =
     (let len = int (length xs);
          k = relative_index len start;
          final = (case end of None \<Rightarrow> len | Some e \<Rightarrow> relative_index len e)
      in take (nat (final - k)) (drop (nat k) xs))"

text \<open>\<open>xs?.[0]\<close> on an array: \<open>undefined\<close> when the array is empty.\<close>

fun first :: "'a list \<Rightarrow> 'a option" where
  "first [] = None"
| "first (x # xs) = Some x"

text \<open>\<open>s.slice(0, end)\<close> with \<open>end\<close> a JavaScript value: \<open>undefined\<close> means up to the end.\<close>

fun slice_to :: "string \<Rightarrow> jsval \<Rightarrow> string option" where
  "slice_to s JUndefined = Some (slice_js s 0 None)"
| "slice_to s v = map_option (\<lambda>e. slice_js s 0 (Some e)) (toInteger v)"

text \<open>
  lodash \<open>padStart(string, length, chars)\<close> with a one-character \<open>chars\<close>: pads on the
  left when the integer length is non-zero and larger than the string.
\<close>

definition padStart :: "string \<Rightarrow> jsval \<Rightarrow> char \<Rightarrow> string option" where
  "padStart s len c =
     map_option
       (\<lambda>n. if n \<noteq> 0 \<and> int (length s) < n then replicate (nat n - length s) c @ s else s)
       (toInteger len)"

section \<open>SHA-256 and the hex digest\<close>

text \<open>
  \<open>createHash("sha256").update(s).digest("hex")\<close> of \<open>node:crypto\<close>: SHA-256 (FIPS 180-4)
  of the UTF-8 bytes of \<open>s\<close>, written as 64 lower-case hexadecimal digits.
\<close>

type_synonym byte = "8 word"
type_synonym word32 = "32 word"

definition Ch :: "word32 \<Rightarrow> word32 \<Rightarrow> word32 \<Rightarrow> word32" where
  "Ch x y z = (x AND y) XOR (NOT x AND z)"

definition Maj :: "word32 \<Rightarrow> word32 \<Rightarrow> word32 \<Rightarrow> word32" where
  "Maj x y z = (x AND y) XOR (x AND z) XOR (y AND z)"

definition bsig0 :: "word32 \<Rightarrow> word32" where
  "bsig0 x = word_rotr 2 x XOR word_rotr 13 x XOR word_rotr 22 x"

definition bsig1 :: "word32 \<Rightarrow> word32" where
  "bsig1 x = word_rotr 6 x XOR word_rotr 11 x XOR word_rotr 25 x"

definition ssig0 :: "word32 \<Rightarrow> word32" where
  "ssig0 x = word_rotr 7 x XOR word_rotr 18 x XOR drop_bit 3 x"

definition ssig1 :: "word32 \<Rightarrow> word32" where
  "ssig1 x = word_rotr 17 x XOR word_rotr 19 x XOR drop_bit 10 x"

definition K256 :: "word32 list" where
  "K256 =
   [0x428A2F98, 0x71374491, 0xB5C0FBCF, 0xE9B5DBA5, 0x3956C25B, 0x59F111F1, 0x923F82A4, 0xAB1C5ED5,
    0xD807AA98, 0x12835B01, 0x243185BE, 0x550C7DC3, 0x72BE5D74, 0x80DEB1FE, 0x9BDC06A7, 0xC19BF174,
    0xE49B69C1, 0xEFBE4786, 0x0FC19DC6, 0x240CA1CC, 0x2DE92C6F, 0x4A7484AA, 0x5CB0A9DC, 0x76F988DA,
    0x983E5152, 0xA831C66D, 0xB00327C8, 0xBF597FC7, 0xC6E00BF3, 0xD5A79147, 0x06CA6351, 0x14292967,
    0x27B70A85, 0x2E1B2138, 0x4D2C6DFC, 0x53380D13, 0x650A7354, 0x766A0ABB, 0x81C2C92E, 0x92722C85,
    0xA2BFE8A1, 0xA81A664B, 0xC24B8B70, 0xC76C51A3, 0xD192E819, 0xD6990624, 0xF40E3585, 0x106AA070,
    0x19A4C116, 0x1E376C08, 0x2748774C, 0x34B0BCB5, 0x391C0CB3, 0x4ED8AA4A, 0x5B9CCA4F, 0x682E6FF3,
    0x748F82EE, 0x78A5636F, 0x84C87814, 0x8CC70208, 0x90BEFFFA, 0xA4506CEB, 0xBEF9A3F7, 0xC67178F2]"

record digest_state =
  h0 :: word32
  h1 :: word32
  h2 :: word32
  h3 :: word32
  h4 :: word32
  h5 :: word32
  h6 :: word32
  h7 :: word32

definition H_init :: digest_state where
  "H_init = \<lparr>h0 = 0x6A09E667, h1 = 0xBB67AE85, h2 = 0x3C6EF372, h3 = 0xA54FF53A,
             h4 = 0x510E527F, h5 = 0x9B05688C, h6 = 0x1F83D9AB, h7 = 0x5BE0CD19\<rparr>"

text \<open>The message schedule is kept newest word first: the head is \<open>W[t-1]\<close>.\<close>

fun extend_schedule :: "nat \<Rightarrow> word32 list \<Rightarrow> word32 list" where
  "extend_schedule 0 ws = ws"
| "extend_schedule (Suc n) ws =
     extend_schedule n ((ssig1 (ws ! 1) + ws ! 6 + ssig0 (ws ! 14) + ws ! 15) # ws)"

definition round256 :: "digest_state \<Rightarrow> word32 \<times> word32 \<Rightarrow> digest_state" where
  "round256 s kw =
     (let t1 = h7 s + bsig1 (h4 s) + Ch (h4 s) (h5 s) (h6 s) + fst kw + snd kw;
          t2 = bsig0 (h0 s) + Maj (h0 s) (h1 s) (h2 s)
      in \<lparr>h0 = t1 + t2, h1 = h0 s, h2 = h1 s, h3 = h2 s,
          h4 = h3 s + t1, h5 = h4 s, h6 = h5 s, h7 = h6 s\<rparr>)"

fun be32 :: "byte list \<Rightarrow> word32 list" where
  "be32 (a # b # c # d # bs) =
     (push_bit 24 (ucast a) OR push_bit 16 (ucast b) OR push_bit 8 (ucast c) OR ucast d) # be32 bs"
| "be32 bs = []"

definition compress :: "digest_state \<Rightarrow> byte list \<Rightarrow> digest_state" where
  "compress s block =
     (let w = rev (extend_schedule 48 (rev (be32 block)));
          r = foldl round256 s (zip K256 w)
      in \<lparr>h0 = h0 s + h0 r, h1 = h1 s + h1 r, h2 = h2 s + h2 r, h3 = h3 s + h3 r,
          h4 = h4 s + h4 r, h5 = h5 s + h5 r, h6 = h6 s + h6 r, h7 = h7 s + h7 r\<rparr>)"

definition be64 :: "64 word \<Rightarrow> byte list" where
  "be64 n = map (\<lambda>i. ucast (drop_bit (8 * i) n)) [7, 6, 5, 4, 3, 2, 1, 0]"

definition pad_message :: "byte list \<Rightarrow> byte list" where
  "pad_message m =
     m @ [0x80] @ replicate ((119 - length m mod 64) mod 64) 0 @ be64 (of_nat (8 * length m))"

fun blocks :: "nat \<Rightarrow> byte list \<Rightarrow> digest_state \<Rightarrow> digest_state" where
  "blocks 0 bs s = s"
| "blocks (Suc n) bs s = blocks n (drop 64 bs) (compress s (take 64 bs))"

definition sha256 :: "byte list \<Rightarrow> digest_state" where
  "sha256 m = (let p = pad_message m in blocks (length p div 64) p H_init)"

definition hex_digit :: "word32 \<Rightarrow> char" where
  "hex_digit n = ''0123456789abcdef'' ! unat (n AND 0xF)"

definition hex32 :: "word32 \<Rightarrow> string" where
  "hex32 w = map (\<lambda>i. hex_digit (drop_bit (4 * i) w)) [7, 6, 5, 4, 3, 2, 1, 0]"

definition hex_digest :: "digest_state \<Rightarrow> string" where
  "hex_digest s = hex32 (h0 s) @ hex32 (h1 s) @ hex32 (h2 s) @ hex32 (h3 s)
                @ hex32 (h4 s) @ hex32 (h5 s) @ hex32 (h6 s) @ hex32 (h7 s)"

definition utf8 :: "string \<Rightarrow> byte list" where
  "utf8 s = map (\<lambda>c. of_nat (of_char c)) s"

section \<open>Parsing and verification\<close>

datatype error =
    Error string
  | TypeError
  | RangeError
  | EntropyFailure
  | Unmodelled

definition hashLongToken :: "string \<Rightarrow> string" where
  "hashLongToken longToken = hex_digest (sha256 (utf8 longToken))"

definition extractLongToken :: "string \<Rightarrow> string option" where
  "extractLongToken token = first (slice_js (split CHR ''_'' token) (- 1) None)"

definition extractShortToken :: "string \<Rightarrow> string option" where
  "extractShortToken token = first (slice_js (split CHR ''_'' token) (- 2) (Some (- 1)))"

text \<open>
  \<open>hashLongToken\<close> is applied to what \<open>extractLongToken\<close> returns; were that \<open>undefined\<close>,
  \<open>update\<close> would throw a TypeError.
\<close>

definition extractLongTokenHash :: "string \<Rightarrow> error + string" where
  "extractLongTokenHash token =
     (case extractLongToken token of
        None \<Rightarrow> Inl TypeError
      | Some long \<Rightarrow> Inr (hashLongToken long))"

definition checkAPIKey :: "string \<Rightarrow> string \<Rightarrow> error + bool" where
  "checkAPIKey token expectedLongTokenHash =
     (case extractLongToken token of
        None \<Rightarrow> Inl TypeError
      | Some long \<Rightarrow> Inr (hashLongToken long = expectedLongTokenHash))"

text \<open>
  The four fields of an \<open>APIKey\<close>. \<open>getTokenComponents\<close> returns the same four fields, but
  its \<open>shortToken\<close> is \<open>undefined\<close> when the token has a single segment, so the type of that
  field is a parameter: \<open>string\<close> in an \<open>APIKey\<close>, \<open>string option\<close> in the components.
\<close>

record 'st components =
  shortToken :: 'st
  longToken :: string
  longTokenHash :: string
  token :: string

type_synonym APIKey = "string components"

definition getTokenComponents :: "string \<Rightarrow> error + string option components" where
  "getTokenComponents tok =
     (case extractLongToken tok of
        None \<Rightarrow> Inl TypeError
      | Some long \<Rightarrow>
          Inr \<lparr>shortToken = extractShortToken tok, longToken = long,
               longTokenHash = hashLongToken long, token = tok\<rparr>)"

section \<open>Base58 encoding\<close>

text \<open>
  \<open>bs58.encode\<close> (the \<open>bs58\<close> package, Bitcoin alphabet): one \<open>1\<close> for every leading zero
  byte, then the remaining bytes, read as one big-endian number, in base 58. The empty
  byte sequence encodes to the empty string.
\<close>

definition ALPHABET :: string where
  "ALPHABET = ''123456789ABCDEFGHJKLMNPQRSTUVWXYZabcdefghijkmnopqrstuvwxyz''"

function digits58 :: "nat \<Rightarrow> nat list" where
  "digits58 n = (if n = 0 then [] else digits58 (n div 58) @ [n mod 58])"
  by pat_completeness auto
termination
  by (relation "measure id") auto

declare digits58.simps [simp del]

definition big_endian :: "byte list \<Rightarrow> nat" where
  "big_endian bs = foldl (\<lambda>acc b. 256 * acc + unat b) 0 bs"

definition bs58_encode :: "byte list \<Rightarrow> string" where
  "bs58_encode bs =
     replicate (length (takeWhile (\<lambda>b. b = 0) bs)) (CHR ''1'')
     @ map (\<lambda>d. ALPHABET ! d) (digits58 (big_endian (dropWhile (\<lambda>b. b = 0) bs)))"

section \<open>The entropy source\<close>

text \<open>
  The state of the random number generator: the bytes it will hand out next, and the sizes
  of the draws made so far. \<open>randomBytes(size)\<close> of \<open>node:crypto\<close> first checks its
  argument (a TypeError unless it is a number, a RangeError when it is NaN, negative or
  above \<open>2^31 - 1\<close>), converts it with \<open>size >>> 0\<close>, and then draws; a generator that
  cannot deliver fails.
\<close>

record rng =
  pool :: "byte list"
  draws :: "nat list"

definition randomBytes :: "rng \<Rightarrow> jsval \<Rightarrow> (error + byte list) \<times> rng" where
  "randomBytes st sz =
     (case sz of
        JNumber (Finite q) \<Rightarrow>
          if q < 0 \<or> 2147483647 < q then (Inl RangeError, st)
          else let n = nat \<lfloor>q\<rfloor>
               in if length (pool st) < n then (Inl EntropyFailure, st)
                  else (Inr (take n (pool st)),
                        \<lparr>pool = drop n (pool st), draws = draws st @ [n]\<rparr>)
      | JNumber _ \<Rightarrow> (Inl RangeError, st)
      | _ \<Rightarrow> (Inl TypeError, st))"

section \<open>Key generation\<close>

record GenerateAPIKeyOptions =
  keyPrefix :: jsval
  shortTokenPrefix :: jsval
  shortTokenLength :: jsval
  longTokenLength :: jsval

text \<open>The character classes of the two regular expressions.\<close>

definition lower_or_digit :: "char \<Rightarrow> bool" where
  "lower_or_digit c =
     (let n = (of_char c :: nat) in (97 \<le> n \<and> n \<le> 122) \<or> (48 \<le> n \<and> n \<le> 57))"

text \<open>\<open>/^[a-z0-9_]+$/.test(s)\<close> and \<open>/^[a-z0-9]+$/.test(s)\<close> on a string \<open>s\<close>.\<close>

definition test_key_prefix :: "string \<Rightarrow> bool" where
  "test_key_prefix s = (s \<noteq> [] \<and> list_all (\<lambda>c. lower_or_digit c \<or> c = CHR ''_'') s)"

definition test_short_token_prefix :: "string \<Rightarrow> bool" where
  "test_short_token_prefix s = (s \<noteq> [] \<and> list_all lower_or_digit s)"

text \<open>
  The three guards of the validation. \<open>typeof v !== "string" || !re.test(v)\<close> and
  \<open>typeof v !== "number" || v < 4 || v > 24\<close> are case distinctions on the type of \<open>v\<close>.
\<close>

definition bad_key_prefix :: "jsval \<Rightarrow> bool" where
  "bad_key_prefix v =
     (\<not> truthy v \<or> (case v of JString s \<Rightarrow> \<not> test_key_prefix s | _ \<Rightarrow> True))"

definition bad_short_token_prefix :: "jsval \<Rightarrow> bool" where
  "bad_short_token_prefix v =
     (truthy v \<and> (case v of JString s \<Rightarrow> \<not> test_short_token_prefix s | _ \<Rightarrow> True))"

definition bad_token_length :: "jsval \<Rightarrow> bool" where
  "bad_token_length v =
     (truthy v \<and> (case v of JNumber n \<Rightarrow> num_less n 4 \<or> num_greater n 24 | _ \<Rightarrow> True))"

text \<open>The range the error message names: a number from 4 to 24, integer or not.\<close>

fun between_4_and_24 :: "jsval \<Rightarrow> bool" where
  "between_4_and_24 (JNumber (Finite q)) = (4 \<le> q \<and> q \<le> 24)"
| "between_4_and_24 v = False"

text \<open>\<open>padStart(bs58.encode(bytes), len, "0").slice(0, len)\<close>\<close>

definition encode_to_length :: "byte list \<Rightarrow> jsval \<Rightarrow> string option" where
  "encode_to_length bytes len =
     Option.bind (padStart (bs58_encode bytes) len (CHR ''0'')) (\<lambda>s. slice_to s len)"

text \<open>
  \<open>generateAPIKey\<close>, with the generator's state passed in and returned. \<open>None\<close> is a call
  without the options object. Both draws are started before either is awaited, so the
  second draw is made even when the first one is rejected; \<open>Promise.all\<close> then rejects with
  the first error.
\<close>

definition generateAPIKey :: "rng \<Rightarrow> GenerateAPIKeyOptions option \<Rightarrow> (error + APIKey) \<times> rng" where
  "generateAPIKey st options =
     (case options of
        None \<Rightarrow> (Inl (Error ''options object is required''), st)
      | Some opts \<Rightarrow>
          if bad_key_prefix (keyPrefix opts) then
            (Inl (Error ''keyPrefix is required and must only contain lowercase letters and numbers (a-z), or underscore (_)''), st)
          else if bad_short_token_prefix (shortTokenPrefix opts) then
            (Inl (Error ''shortTokenPrefix must only contain lowercase letters and numbers''), st)
          else if bad_token_length (shortTokenLength opts) then
            (Inl (Error ''shortTokenLength must be a number between 4 and 24''), st)
          else if bad_token_length (longTokenLength opts) then
            (Inl (Error ''longTokenLength must be a number between 4 and 24''), st)
          else
            let (shortTokenBytes, st1) =
                  randomBytes st (nullish (shortTokenLength opts) (JNumber (Finite 8)));
                (longTokenBytes, st2) =
                  randomBytes st1 (nullish (longTokenLength opts) (JNumber (Finite 24)))
            in (case shortTokenBytes of
                  Inl e \<Rightarrow> (Inl e, st2)
                | Inr sb \<Rightarrow>
                   (case longTokenBytes of
                      Inl e \<Rightarrow> (Inl e, st2)
                    | Inr lb \<Rightarrow>
                       (case (encode_to_length sb (shortTokenLength opts),
                              encode_to_length lb (longTokenLength opts),
                              if truthy (shortTokenPrefix opts)
                              then toString (shortTokenPrefix opts) else Some [],
                              toString (keyPrefix opts)) of
                          (Some short0, Some long, Some pre, Some kp) \<Rightarrow>
                            (case slice_to (pre @ short0) (shortTokenLength opts) of
                               Some short \<Rightarrow>
                                 (Inr \<lparr>shortToken = short, longToken = long,
                                       longTokenHash = hashLongToken long,
                                       token = kp @ ''_'' @ short @ ''_'' @ long\<rparr>, st2)
                             | None \<Rightarrow> (Inl Unmodelled, st2))
                        | _ \<Rightarrow> (Inl Unmodelled, st2)))))"

section \<open>Splitting a token\<close>

lemma split_not_Nil: "split sep s \<noteq> []"
  by (induction s) (auto split: list.splits)

lemma split_no_sep: "sep \<notin> set s \<Longrightarrow> split sep s = [s]"
  by (induction s) auto

lemma split_append_sep: "split sep (a @ sep # b) = split sep a @ split sep b"
proof (induction a)
  case Nil
  then show ?case by simp
next
  case (Cons c a)
  then show ?case
    using split_not_Nil [of sep a] by (cases "split sep a") auto
qed

lemma takeWhile_no_sep: "sep \<notin> set c \<Longrightarrow> takeWhile (\<lambda>x. x \<noteq> sep) (rev c) = rev c"
  by (auto simp: takeWhile_eq_all_conv)

lemma suffix_after_last_sep:
  "sep \<notin> set c \<Longrightarrow> rev (takeWhile (\<lambda>x. x \<noteq> sep) (rev (a @ sep # c))) = c"
  by (simp add: takeWhile_tail takeWhile_no_sep)

lemma last_split: "last (split sep s) = rev (takeWhile (\<lambda>c. c \<noteq> sep) (rev s))"
proof (cases "sep \<in> set s")
  case False
  then show ?thesis by (simp add: split_no_sep takeWhile_no_sep)
next
  case True
  then obtain a c where s: "s = a @ sep # c" and c: "sep \<notin> set c"
    by (meson split_list_last)
  have "last (split sep s) = c"
    using c split_not_Nil [of sep a] by (simp add: s split_append_sep split_no_sep)
  then show ?thesis
    using suffix_after_last_sep [OF c, of a] s by simp
qed

lemma slice_js_last: "xs \<noteq> [] \<Longrightarrow> slice_js xs (- 1) None = [last xs]"
proof -
  assume "xs \<noteq> []"
  then obtain ys y where xs: "xs = ys @ [y]"
    by (meson rev_exhaust)
  show ?thesis
    by (simp add: xs slice_js_def relative_index_def Let_def)
qed

lemma slice_js_second_last: "slice_js (xs @ [b, c]) (- 2) (Some (- 1)) = [b]"
  by (simp add: slice_js_def relative_index_def Let_def)

lemma slice_js_second_last_single: "slice_js [c] (- 2) (Some (- 1)) = []"
  by (simp add: slice_js_def relative_index_def Let_def)

lemma extractLongToken_last: "extractLongToken t = Some (last (split CHR ''_'' t))"
  by (simp add: extractLongToken_def slice_js_last split_not_Nil)

lemma extractLongToken_suffix:
  "extractLongToken t = Some (rev (takeWhile (\<lambda>c. c \<noteq> CHR ''_'') (rev t)))"
  by (simp add: extractLongToken_last last_split)

lemma extractShortToken_segments:
  assumes "CHR ''_'' \<notin> set b" and "CHR ''_'' \<notin> set c"
  shows "extractShortToken (a @ ''_'' @ b @ ''_'' @ c) = Some b"
proof -
  have "split CHR ''_'' (a @ CHR ''_'' # (b @ CHR ''_'' # c)) = split CHR ''_'' a @ [b, c]"
    using assms by (simp add: split_append_sep split_no_sep)
  then show ?thesis
    by (simp add: extractShortToken_def slice_js_second_last)
qed

lemma extractLongToken_segments:
  assumes "CHR ''_'' \<notin> set c"
  shows "extractLongToken (a @ ''_'' @ c) = Some c"
  using assms split_not_Nil [of "CHR ''_''" a]
  by (simp add: extractLongToken_last split_append_sep split_no_sep)

lemma extractShortToken_single:
  "CHR ''_'' \<notin> set t \<Longrightarrow> extractShortToken t = None"
  by (simp add: extractShortToken_def split_no_sep slice_js_second_last_single)

lemma two_separators:
  assumes "2 \<le> count_list t sep"
  shows "\<exists>a b c. t = a @ sep # b @ sep # c \<and> sep \<notin> set b \<and> sep \<notin> set c"
proof -
  from assms have "sep \<in> set t"
    by (metis count_list_0_iff not_numeral_le_zero)
  then obtain a' c where t: "t = a' @ sep # c" and c: "sep \<notin> set c"
    by (meson split_list_last)
  from assms t c have "1 \<le> count_list a' sep"
    by (simp add: count_list_0_iff)
  then have "sep \<in> set a'"
    by (metis count_list_0_iff not_one_le_zero)
  then obtain a b where a': "a' = a @ sep # b" and b: "sep \<notin> set b"
    by (meson split_list_last)
  show ?thesis using t a' b c by auto
qed

section \<open>Encoding to a length\<close>

lemma digits58_less: "d \<in> set (digits58 n) \<Longrightarrow> d < 58"
proof (induction n rule: digits58.induct)
  case (1 n)
  show ?case
  proof (cases "n = 0")
    case True
    with "1.prems" show ?thesis by (simp add: digits58.simps)
  next
    case False
    from "1.prems" have "d \<in> set (digits58 (n div 58) @ [n mod 58])"
      by (subst (asm) digits58.simps) (simp add: False)
    with "1.IH" [OF False] show ?thesis by auto
  qed
qed

lemma length_ALPHABET: "length ALPHABET = 58"
  by (simp add: ALPHABET_def)

lemma underscore_not_in_ALPHABET: "CHR ''_'' \<notin> set ALPHABET"
  by (simp add: ALPHABET_def)

lemma bs58_encode_chars: "set (bs58_encode bs) \<subseteq> set ALPHABET"
proof -
  have "ALPHABET ! d \<in> set ALPHABET" if "d \<in> set (digits58 n)" for d n
    using digits58_less [OF that] by (simp add: length_ALPHABET)
  moreover have "CHR ''1'' \<in> set ALPHABET"
    by (simp add: ALPHABET_def)
  ultimately show ?thesis
    by (auto simp: bs58_encode_def)
qed

lemma slice_js_all: "slice_js s 0 None = s"
  by (simp add: slice_js_def relative_index_def)

lemma slice_js_take: "0 \<le> e \<Longrightarrow> slice_js s 0 (Some e) = take (nat e) s"
  by (simp add: slice_js_def relative_index_def min_def Let_def)

lemma slice_js_is_take: "\<exists>n. slice_js s 0 e = take n s"
  by (auto simp: slice_js_def relative_index_def Let_def)

lemma slice_to_is_slice_js: "slice_to s v = Some r \<Longrightarrow> \<exists>e. r = slice_js s 0 e"
  by (cases v) auto

lemma slice_to_is_take: "slice_to s v = Some r \<Longrightarrow> \<exists>n. r = take n s"
  using slice_js_is_take [of s] by (auto dest!: slice_to_is_slice_js)

lemma slice_to_chars: "slice_to s v = Some r \<Longrightarrow> set r \<subseteq> set s"
  by (auto dest!: slice_to_is_take in_set_takeD)

lemma padStart_chars: "padStart s v c = Some r \<Longrightarrow> set r \<subseteq> insert c (set s)"
  by (auto simp: padStart_def split: if_splits)

lemma encode_to_length_chars:
  assumes "encode_to_length bs v = Some r"
  shows "set r \<subseteq> insert (CHR ''0'') (set ALPHABET)"
proof -
  from assms obtain p where p: "padStart (bs58_encode bs) v (CHR ''0'') = Some p"
    and r: "slice_to p v = Some r"
    by (auto simp: encode_to_length_def split: bind_splits)
  from padStart_chars [OF p] slice_to_chars [OF r] bs58_encode_chars [of bs]
  show ?thesis by blast
qed

lemma trunc_nonneg: "0 \<le> q \<Longrightarrow> trunc q = \<lfloor>q\<rfloor>"
  by (simp add: trunc_def)

lemma encode_to_length_undefined: "encode_to_length bs JUndefined = Some (bs58_encode bs)"
  by (simp add: encode_to_length_def padStart_def slice_js_all)

lemma encode_to_length_null: "encode_to_length bs JNull = Some []"
  by (simp add: encode_to_length_def padStart_def slice_js_take)

lemma encode_to_length_number:
  assumes "0 \<le> q"
  shows "encode_to_length bs (JNumber (Finite q)) =
           Some (take (nat \<lfloor>q\<rfloor>)
                   (replicate (nat \<lfloor>q\<rfloor> - length (bs58_encode bs)) (CHR ''0'') @ bs58_encode bs))"
  using assms
  by (auto simp: encode_to_length_def padStart_def slice_js_take trunc_nonneg)

lemma length_encode_to_length_number:
  assumes "0 \<le> q" and "encode_to_length bs (JNumber (Finite q)) = Some r"
  shows "length r = nat \<lfloor>q\<rfloor>"
  using assms by (auto simp: encode_to_length_number)

section \<open>Key generation: the modelled domain\<close>

lemma randomBytes_Inr:
  assumes "randomBytes st v = (Inr bs, st')"
  shows "\<exists>q. v = JNumber (Finite q) \<and> 0 \<le> q \<and> q \<le> 2147483647 \<and> nat \<lfloor>q\<rfloor> \<le> length (pool st)
           \<and> bs = take (nat \<lfloor>q\<rfloor>) (pool st)
           \<and> st' = \<lparr>pool = drop (nat \<lfloor>q\<rfloor>) (pool st), draws = draws st @ [nat \<lfloor>q\<rfloor>]\<rparr>"
  using assms
  by (auto simp: randomBytes_def Let_def split: jsval.splits jsnumber.splits if_splits)

lemma toInteger_after_draw:
  assumes "randomBytes st (nullish v d) = (Inr bs, st')"
  shows "v = JUndefined \<or> v = JNull \<or> (\<exists>q. v = JNumber (Finite q) \<and> 0 \<le> q)"
  using randomBytes_Inr [OF assms] by (cases v) auto

lemma encode_to_length_after_draw:
  assumes "randomBytes st (nullish v d) = (Inr bs, st')"
  shows "\<exists>r. encode_to_length bs' v = Some r"
  using toInteger_after_draw [OF assms]
  by (auto simp: encode_to_length_undefined encode_to_length_null encode_to_length_number)

lemma slice_to_after_draw:
  assumes "randomBytes st (nullish v d) = (Inr bs, st')"
  shows "\<exists>r. slice_to s v = Some r"
  using toInteger_after_draw [OF assms] by auto

lemma good_key_prefix: "\<not> bad_key_prefix v \<Longrightarrow> \<exists>kp. v = JString kp \<and> test_key_prefix kp"
  by (cases v) (auto simp: bad_key_prefix_def)

lemma good_short_token_prefix:
  "\<not> bad_short_token_prefix v \<Longrightarrow>
     \<exists>pre. (if truthy v then toString v else Some []) = Some pre
          \<and> (pre = [] \<or> v = JString pre \<and> test_short_token_prefix pre)"
  by (cases v) (auto simp: bad_short_token_prefix_def)

lemma generateAPIKey_modelled: "fst (generateAPIKey st options) \<noteq> Inl Unmodelled"
proof (cases options)
  case None
  then show ?thesis by (simp add: generateAPIKey_def)
next
  case (Some opts)
  show ?thesis
  proof (cases "bad_key_prefix (keyPrefix opts) \<or> bad_short_token_prefix (shortTokenPrefix opts)
      \<or> bad_token_length (shortTokenLength opts) \<or> bad_token_length (longTokenLength opts)")
    case True
    then show ?thesis by (auto simp: generateAPIKey_def Some)
  next
    case False
    obtain r1 st1 where d1:
      "randomBytes st (nullish (shortTokenLength opts) (JNumber (Finite 8))) = (r1, st1)"
      by (cases "randomBytes st (nullish (shortTokenLength opts) (JNumber (Finite 8)))")
    obtain r2 st2 where d2:
      "randomBytes st1 (nullish (longTokenLength opts) (JNumber (Finite 24))) = (r2, st2)"
      by (cases "randomBytes st1 (nullish (longTokenLength opts) (JNumber (Finite 24)))")
    have no_unmodelled: "r \<noteq> Inl Unmodelled" if "randomBytes s v = (r, s')" for s v r s'
      using that
      by (auto simp: randomBytes_def Let_def split: jsval.splits jsnumber.splits if_splits)
    show ?thesis
    proof (cases r1)
      case (Inl e)
      then show ?thesis using False d1 d2 no_unmodelled [OF d1]
        by (simp add: generateAPIKey_def Some)
    next
      case sb: (Inr sb)
      show ?thesis
      proof (cases r2)
        case (Inl e)
        then show ?thesis using False d1 d2 sb no_unmodelled [OF d2]
          by (simp add: generateAPIKey_def Some)
      next
        case lb: (Inr lb)
        from False obtain kp where kp: "toString (keyPrefix opts) = Some kp"
          by (auto dest!: good_key_prefix)
        from False obtain pre where pre:
          "(if truthy (shortTokenPrefix opts) then toString (shortTokenPrefix opts) else Some [])
             = Some pre"
          by (auto dest!: good_short_token_prefix)
        from encode_to_length_after_draw [OF d1 [unfolded sb]]
        obtain short0 where s0: "encode_to_length sb (shortTokenLength opts) = Some short0"
          by blast
        from encode_to_length_after_draw [OF d2 [unfolded lb]]
        obtain long where l: "encode_to_length lb (longTokenLength opts) = Some long"
          by blast
        from slice_to_after_draw [OF d1 [unfolded sb]]
        obtain short where s: "slice_to (pre @ short0) (shortTokenLength opts) = Some short"
          by blast
        show ?thesis
          using False d1 d2 sb lb kp pre s0 l s
          by (simp add: generateAPIKey_def Some)
      qed
    qed
  qed
qed

section \<open>Key generation: successful calls\<close>

lemma generateAPIKey_Inr:
  assumes "generateAPIKey st options = (Inr key, st')"
  obtains opts kp pre sb lb short0 st1 where
    "options = Some opts"
    "keyPrefix opts = JString kp" "test_key_prefix kp"
    "\<not> bad_short_token_prefix (shortTokenPrefix opts)"
    "\<not> bad_token_length (shortTokenLength opts)"
    "\<not> bad_token_length (longTokenLength opts)"
    "(if truthy (shortTokenPrefix opts) then toString (shortTokenPrefix opts) else Some [])
       = Some pre"
    "randomBytes st (nullish (shortTokenLength opts) (JNumber (Finite 8))) = (Inr sb, st1)"
    "randomBytes st1 (nullish (longTokenLength opts) (JNumber (Finite 24))) = (Inr lb, st')"
    "encode_to_length sb (shortTokenLength opts) = Some short0"
    "encode_to_length lb (longTokenLength opts) = Some (longToken key)"
    "slice_to (pre @ short0) (shortTokenLength opts) = Some (shortToken key)"
    "longTokenHash key = hashLongToken (longToken key)"
    "token key = kp @ ''_'' @ shortToken key @ ''_'' @ longToken key"
proof -
  from assms obtain opts where opts: "options = Some opts"
    by (cases options) (auto simp: generateAPIKey_def)
  from assms have valid: "\<not> bad_key_prefix (keyPrefix opts)"
    "\<not> bad_short_token_prefix (shortTokenPrefix opts)"
    "\<not> bad_token_length (shortTokenLength opts)"
    "\<not> bad_token_length (longTokenLength opts)"
    by (auto simp: generateAPIKey_def opts split: if_splits)
  obtain r1 st1 where d1:
    "randomBytes st (nullish (shortTokenLength opts) (JNumber (Finite 8))) = (r1, st1)"
    by (cases "randomBytes st (nullish (shortTokenLength opts) (JNumber (Finite 8)))")
  obtain r2 st2 where d2:
    "randomBytes st1 (nullish (longTokenLength opts) (JNumber (Finite 24))) = (r2, st2)"
    by (cases "randomBytes st1 (nullish (longTokenLength opts) (JNumber (Finite 24)))")
  from assms valid d1 d2 obtain sb lb where sb: "r1 = Inr sb" and lb: "r2 = Inr lb"
    by (auto simp: generateAPIKey_def opts split: sum.splits)
  from valid obtain kp where kp: "keyPrefix opts = JString kp" "test_key_prefix kp"
    by (auto dest!: good_key_prefix)
  from valid obtain pre where pre:
    "(if truthy (shortTokenPrefix opts) then toString (shortTokenPrefix opts) else Some [])
       = Some pre"
    by (auto dest!: good_short_token_prefix)
  from encode_to_length_after_draw [OF d1 [unfolded sb]]
  obtain short0 where s0: "encode_to_length sb (shortTokenLength opts) = Some short0"
    by blast
  from encode_to_length_after_draw [OF d2 [unfolded lb]]
  obtain long where l: "encode_to_length lb (longTokenLength opts) = Some long"
    by blast
  from slice_to_after_draw [OF d1 [unfolded sb]]
  obtain short where s: "slice_to (pre @ short0) (shortTokenLength opts) = Some short"
    by blast
  from assms valid d1 d2 sb lb kp pre s0 l s
  have key: "key = \<lparr>shortToken = short, longToken = long, longTokenHash = hashLongToken long,
                     token = kp @ ''_'' @ short @ ''_'' @ long\<rparr>" and st': "st' = st2"
    by (simp_all add: generateAPIKey_def opts)
  show ?thesis
    using that [OF opts kp valid(2,3,4) pre d1 [unfolded sb] d2 [unfolded lb, folded st']]
      s0 l s by (simp add: key)
qed

lemma underscore_not_lower_or_digit: "\<not> lower_or_digit (CHR ''_'')"
  by (simp add: lower_or_digit_def)

lemma short_token_prefix_no_underscore:
  "test_short_token_prefix pre \<Longrightarrow> CHR ''_'' \<notin> set pre"
  using underscore_not_lower_or_digit
  by (auto simp: test_short_token_prefix_def list_all_iff)

lemma generated_tokens_no_underscore:
  assumes "generateAPIKey st options = (Inr key, st')"
  shows "CHR ''_'' \<notin> set (shortToken key) \<and> CHR ''_'' \<notin> set (longToken key)"
proof (rule generateAPIKey_Inr [OF assms])
  fix opts kp pre sb lb short0 st1
  assume valid: "\<not> bad_short_token_prefix (shortTokenPrefix opts)"
    and pre: "(if truthy (shortTokenPrefix opts) then toString (shortTokenPrefix opts) else Some [])
       = Some pre"
    and s0: "encode_to_length sb (shortTokenLength opts) = Some short0"
    and l: "encode_to_length lb (longTokenLength opts) = Some (longToken key)"
    and s: "slice_to (pre @ short0) (shortTokenLength opts) = Some (shortToken key)"
  from good_short_token_prefix [OF valid] pre have "CHR ''_'' \<notin> set pre"
    by (auto dest: short_token_prefix_no_underscore)
  moreover from encode_to_length_chars [OF s0] have "CHR ''_'' \<notin> set short0"
    using underscore_not_in_ALPHABET by auto
  ultimately have "CHR ''_'' \<notin> set (shortToken key)"
    using slice_to_chars [OF s] by auto
  moreover from encode_to_length_chars [OF l] have "CHR ''_'' \<notin> set (longToken key)"
    using underscore_not_in_ALPHABET by auto
  ultimately show ?thesis by simp
qed

lemma generated_token_parses:
  assumes "generateAPIKey st options = (Inr key, st')"
  shows "extractLongToken (token key) = Some (longToken key)"
    and "extractShortToken (token key) = Some (shortToken key)"
proof -
  from assms obtain kp where
    tok: "token key = kp @ ''_'' @ shortToken key @ ''_'' @ longToken key"
    by (rule generateAPIKey_Inr)
  from generated_tokens_no_underscore [OF assms]
  have no: "CHR ''_'' \<notin> set (shortToken key)" "CHR ''_'' \<notin> set (longToken key)"
    by simp_all
  show "extractLongToken (token key) = Some (longToken key)"
    using extractLongToken_segments [OF no(2), of "kp @ ''_'' @ shortToken key"]
    by (simp add: tok)
  show "extractShortToken (token key) = Some (shortToken key)"
    using extractShortToken_segments [OF no, of kp] by (simp add: tok)
qed

section \<open>The shape of the digest\<close>

lemma hex_digit_hex: "hex_digit n \<in> set ''0123456789abcdef''"
proof -
  have "unat (n AND 0xF) \<le> unat (0xF :: word32)"
    by (rule word_and_le1 [THEN word_le_nat_alt [THEN iffD1]])
  then have "unat (n AND 0xF) < length ''0123456789abcdef''"
    by simp
  then show ?thesis
    unfolding hex_digit_def by (rule nth_mem)
qed

lemma length_hex32: "length (hex32 w) = 8"
  by (simp add: hex32_def)

lemma hex32_hex: "set (hex32 w) \<subseteq> set ''0123456789abcdef''"
  using hex_digit_hex by (auto simp: hex32_def)

lemma length_hex_digest: "length (hex_digest s) = 64"
  by (simp add: hex_digest_def length_hex32)

lemma hex_digest_hex: "set (hex_digest s) \<subseteq> set ''0123456789abcdef''"
  using hex32_hex unfolding hex_digest_def set_append by blast

lemma length_hashLongToken: "length (hashLongToken s) = 64"
  by (simp add: hashLongToken_def length_hex_digest)

lemma hashLongToken_hex: "set (hashLongToken s) \<subseteq> set ''0123456789abcdef''"
  by (simp only: hashLongToken_def hex_digest_hex)

section \<open>Concrete runs\<close>

lemma floor_nine_halves: "\<lfloor>9 / 2 :: rat\<rfloor> = 4"
  by (rule floor_unique) simp_all

lemma bs58_encode_ff4: "bs58_encode [255, 255, 255, 255] = ''7YXq9G''"
  by (simp add: bs58_encode_def big_endian_def digits58.simps ALPHABET_def)

lemma bs58_encode_ff8:
  "bs58_encode [255, 255, 255, 255, 255, 255, 255, 255] = ''jpXCZedGfVQ''"
  by (simp add: bs58_encode_def big_endian_def digits58.simps ALPHABET_def)

lemma bs58_encode_ff24:
  "bs58_encode [255, 255, 255, 255, 255, 255, 255, 255, 255, 255, 255, 255,
                255, 255, 255, 255, 255, 255, 255, 255, 255, 255, 255, 255]
     = ''QLbz7JHiBTspS962RLKV8GndWFwiEaqKL''"
  by (simp add: bs58_encode_def big_endian_def digits58.simps ALPHABET_def)

lemma bs58_encode_1234: "bs58_encode [1, 2, 3, 4] = ''2VfUX''"
  by (simp add: bs58_encode_def big_endian_def digits58.simps ALPHABET_def)

lemma encode_to_length_1234:
  "encode_to_length [1, 2, 3, 4] (JNumber (Finite 4)) = Some ''2VfU''"
  by (simp add: encode_to_length_number bs58_encode_1234)

lemma encode_to_length_1234_fraction:
  "encode_to_length [1, 2, 3, 4] (JNumber (Finite (9 / 2))) = Some ''2VfU''"
  by (simp add: encode_to_length_number bs58_encode_1234 floor_nine_halves)

lemma encode_to_length_ff4:
  "encode_to_length [255, 255, 255, 255] (JNumber (Finite 4)) = Some ''7YXq''"
  by (simp add: encode_to_length_number bs58_encode_ff4)

lemma encode_to_length_ff4_fraction:
  "encode_to_length [255, 255, 255, 255] (JNumber (Finite (9 / 2))) = Some ''7YXq''"
  by (simp add: encode_to_length_number bs58_encode_ff4 floor_nine_halves)

lemma randomBytes_4:
  "randomBytes \<lparr>pool = a # b # c # d # bs, draws = ds\<rparr> (JNumber (Finite 4))
     = (Inr [a, b, c, d], \<lparr>pool = bs, draws = ds @ [4]\<rparr>)"
  by (simp add: randomBytes_def)

lemma randomBytes_4_fraction:
  "randomBytes \<lparr>pool = a # b # c # d # bs, draws = ds\<rparr> (JNumber (Finite (9 / 2)))
     = (Inr [a, b, c, d], \<lparr>pool = bs, draws = ds @ [4]\<rparr>)"
  by (simp add: randomBytes_def floor_nine_halves)

lemmas validation_defs =
  bad_key_prefix_def bad_short_token_prefix_def bad_token_length_def
  test_key_prefix_def test_short_token_prefix_def lower_or_digit_def

lemma generateAPIKey_example:
  "generateAPIKey \<lparr>pool = [1, 2, 3, 4, 255, 255, 255, 255], draws = []\<rparr>
     (Some \<lparr>keyPrefix = JString ''my_company'', shortTokenPrefix = JUndefined,
            shortTokenLength = JNumber (Finite 4), longTokenLength = JNumber (Finite 4)\<rparr>)
   = (Inr \<lparr>shortToken = ''2VfU'', longToken = ''7YXq'', longTokenHash = hashLongToken ''7YXq'',
           token = ''my_company_2VfU_7YXq''\<rparr>,
      \<lparr>pool = [], draws = [4, 4]\<rparr>)"
  by (simp add: generateAPIKey_def validation_defs randomBytes_4 encode_to_length_ff4
      encode_to_length_1234 slice_js_take trunc_def)

section \<open>Further facts about parsing and generation\<close>

lemma getTokenComponents_Inr:
  "getTokenComponents t =
     Inr \<lparr>shortToken = extractShortToken t,
          longToken = rev (takeWhile (\<lambda>c. c \<noteq> CHR ''_'') (rev t)),
          longTokenHash = hashLongToken (rev (takeWhile (\<lambda>c. c \<noteq> CHR ''_'') (rev t))),
          token = t\<rparr>"
  by (simp add: getTokenComponents_def extractLongToken_suffix)

lemma checkAPIKey_Inr:
  "checkAPIKey t h = Inr (hashLongToken (rev (takeWhile (\<lambda>c. c \<noteq> CHR ''_'') (rev t))) = h)"
  by (simp add: checkAPIKey_def extractLongToken_suffix)

lemma bad_token_length_iff: "bad_token_length v \<longleftrightarrow> truthy v \<and> \<not> between_4_and_24 v"
proof (cases v)
  case (JNumber n)
  then show ?thesis by (cases n) (auto simp: bad_token_length_def)
qed (simp_all add: bad_token_length_def)

lemma randomBytes_no_Error: "randomBytes s v = (r, s') \<Longrightarrow> r \<noteq> Inl (Error msg)"
  by (auto simp: randomBytes_def Let_def split: jsval.splits jsnumber.splits if_splits)

lemma generateAPIKey_validated:
  assumes "\<not> bad_key_prefix (keyPrefix opts)"
    and "\<not> bad_short_token_prefix (shortTokenPrefix opts)"
    and "\<not> bad_token_length (shortTokenLength opts)"
    and "\<not> bad_token_length (longTokenLength opts)"
  shows "fst (generateAPIKey st (Some opts)) \<noteq> Inl (Error msg)"
proof -
  obtain r1 st1 where d1:
    "randomBytes st (nullish (shortTokenLength opts) (JNumber (Finite 8))) = (r1, st1)"
    by (cases "randomBytes st (nullish (shortTokenLength opts) (JNumber (Finite 8)))")
  obtain r2 st2 where d2:
    "randomBytes st1 (nullish (longTokenLength opts) (JNumber (Finite 24))) = (r2, st2)"
    by (cases "randomBytes st1 (nullish (longTokenLength opts) (JNumber (Finite 24)))")
  from assms d1 d2 randomBytes_no_Error [OF d1] randomBytes_no_Error [OF d2] show ?thesis
    by (auto simp: generateAPIKey_def split: sum.splits option.splits)
qed

lemma generateAPIKey_given_lengths:
  assumes "generateAPIKey st options = (Inr key, st')" and "options = Some opts"
  shows "shortTokenLength opts = JNumber (Finite q) \<Longrightarrow> length (shortToken key) = nat \<lfloor>q\<rfloor>"
    and "longTokenLength opts = JNumber (Finite q') \<Longrightarrow> length (longToken key) = nat \<lfloor>q'\<rfloor>"
proof -
  show "length (shortToken key) = nat \<lfloor>q\<rfloor>" if sl: "shortTokenLength opts = JNumber (Finite q)"
  proof (rule generateAPIKey_Inr [OF assms(1)])
    fix opts' kp pre sb lb short0 st1
    assume "options = Some opts'"
      and d1: "randomBytes st (nullish (shortTokenLength opts') (JNumber (Finite 8))) = (Inr sb, st1)"
      and s0: "encode_to_length sb (shortTokenLength opts') = Some short0"
      and s: "slice_to (pre @ short0) (shortTokenLength opts') = Some (shortToken key)"
    with assms(2) sl have [simp]: "opts' = opts" by simp
    from randomBytes_Inr [OF d1] sl have q: "0 \<le> q" by simp
    from s0 sl q have "length short0 = nat \<lfloor>q\<rfloor>"
      by (simp add: length_encode_to_length_number)
    moreover from s sl q have "shortToken key = take (nat \<lfloor>q\<rfloor>) (pre @ short0)"
      by (simp add: slice_js_take trunc_nonneg)
    ultimately show ?thesis by simp
  qed
  show "length (longToken key) = nat \<lfloor>q'\<rfloor>" if ll: "longTokenLength opts = JNumber (Finite q')"
  proof (rule generateAPIKey_Inr [OF assms(1)])
    fix opts' kp pre sb lb short0 st1
    assume "options = Some opts'"
      and d2: "randomBytes st1 (nullish (longTokenLength opts') (JNumber (Finite 24))) = (Inr lb, st')"
      and l: "encode_to_length lb (longTokenLength opts') = Some (longToken key)"
    with assms(2) ll have [simp]: "opts' = opts" by simp
    from randomBytes_Inr [OF d2] ll have "0 \<le> q'" by simp
    with l ll show ?thesis
      by (simp add: length_encode_to_length_number)
  qed
qed

lemma generateAPIKey_omitted_short_length:
  assumes "generateAPIKey st (Some opts) = (Inr key, st')"
    and "shortTokenLength opts = JUndefined"
  shows "\<exists>pre. (if truthy (shortTokenPrefix opts) then toString (shortTokenPrefix opts) else Some [])
               = Some pre
             \<and> shortToken key = pre @ bs58_encode (take 8 (pool st))"
proof (rule generateAPIKey_Inr [OF assms(1)])
  fix opts' kp pre sb lb short0 st1
  assume "Some opts = Some opts'"
    and pre: "(if truthy (shortTokenPrefix opts') then toString (shortTokenPrefix opts') else Some [])
       = Some pre"
    and d1: "randomBytes st (nullish (shortTokenLength opts') (JNumber (Finite 8))) = (Inr sb, st1)"
    and s0: "encode_to_length sb (shortTokenLength opts') = Some short0"
    and s: "slice_to (pre @ short0) (shortTokenLength opts') = Some (shortToken key)"
  then have eq: "opts' = opts" by simp
  from randomBytes_Inr [OF d1 [unfolded eq]] assms(2) have "sb = take 8 (pool st)" by simp
  moreover from s0 [unfolded eq] assms(2) have "short0 = bs58_encode sb"
    by (simp add: encode_to_length_undefined)
  moreover from s [unfolded eq] assms(2) have "shortToken key = pre @ short0"
    by (simp add: slice_js_all)
  ultimately show ?thesis using pre [unfolded eq] by blast
qed

lemma randomBytes_8:
  "randomBytes \<lparr>pool = b1 # b2 # b3 # b4 # b5 # b6 # b7 # b8 # bs, draws = ds\<rparr>
     (JNumber (Finite 8))
     = (Inr [b1, b2, b3, b4, b5, b6, b7, b8], \<lparr>pool = bs, draws = ds @ [8]\<rparr>)"
  by (simp add: randomBytes_def)

lemma randomBytes_24:
  "randomBytes \<lparr>pool = [255, 255, 255, 255, 255, 255, 255, 255, 255, 255, 255, 255,
                255, 255, 255, 255, 255, 255, 255, 255, 255, 255, 255, 255], draws = ds\<rparr>
     (JNumber (Finite 24))
     = (Inr [255, 255, 255, 255, 255, 255, 255, 255, 255, 255, 255, 255,
                255, 255, 255, 255, 255, 255, 255, 255, 255, 255, 255, 255], \<lparr>pool = [], draws = ds @ [24]\<rparr>)"
  by (simp add: randomBytes_def)

lemma generateAPIKey_zero_length:
  "fst (generateAPIKey \<lparr>pool = [1, 2, 3, 4, 255, 255, 255, 255], draws = []\<rparr>
     (Some \<lparr>keyPrefix = JString ''my_company'', shortTokenPrefix = JUndefined,
            shortTokenLength = JNumber (Finite 0), longTokenLength = JNumber (Finite 4)\<rparr>))
   = Inr \<lparr>shortToken = [], longToken = ''2VfU'', longTokenHash = hashLongToken ''2VfU'',
          token = ''my_company__2VfU''\<rparr>"
  by (simp add: generateAPIKey_def validation_defs randomBytes_4 randomBytes_def
      encode_to_length_1234 encode_to_length_number slice_js_take trunc_def bs58_encode_def
      big_endian_def digits58.simps)

lemma hashLongToken_known_token:
  "hashLongToken ''51FwqftsmMDHHbJAMEXXHCgG''
     = ''d70d981d87b449c107327c2a2afbf00d4b58070d6ba571aac35d7ea3e7c79f37''"
  by code_simp

lemma take_prefix_of_take_append:
  "take (length pre) (take n (pre @ s)) = take n pre"
  by (cases "n \<le> length pre") (simp_all add: min_def)

lemma generateAPIKey_prefix_example:
  "generateAPIKey \<lparr>pool = [1, 2, 3, 4, 255, 255, 255, 255], draws = []\<rparr>
     (Some \<lparr>keyPrefix = JString ''my_company'', shortTokenPrefix = JString ''ab'',
            shortTokenLength = JNumber (Finite 4), longTokenLength = JNumber (Finite 4)\<rparr>)
   = (Inr \<lparr>shortToken = ''ab2V'', longToken = ''7YXq'', longTokenHash = hashLongToken ''7YXq'',
           token = ''my_company_ab2V_7YXq''\<rparr>,
      \<lparr>pool = [], draws = [4, 4]\<rparr>)"
  by (simp add: generateAPIKey_def validation_defs randomBytes_4 encode_to_length_ff4
      encode_to_length_1234 slice_js_take trunc_def)

section \<open>The claims\<close>

text \<open>
  Claim C1: every accepted call returns a \<open>shortToken\<close> of \<open>shortTokenLength\<close> characters and
  a \<open>longToken\<close> of \<open>longTokenLength\<close> characters, 8 and 24 when the option is omitted, the
  encoded entropy being padded with \<open>0\<close> and truncated to that length.

  When the length is given, \<open>generateAPIKey_given_lengths\<close> above has the length of the
  token. When it is omitted, \<open>shortTokenLength ?? 8\<close> and \<open>longTokenLength ?? 24\<close> set the
  number of bytes drawn, but \<open>padStart\<close> and \<open>slice\<close> receive \<open>undefined\<close>: nothing is
  padded, nothing is cut, and the tokens are the whole encodings of 8 and of 24 bytes. The
  run below, on bytes that are all \<open>0xff\<close>, returns tokens of 11 and 33 characters.
\<close>

theorem C1_omitted_lengths:
  "fst (generateAPIKey
     \<lparr>pool = [255, 255, 255, 255, 255, 255, 255, 255,
               255, 255, 255, 255, 255, 255, 255, 255,
               255, 255, 255, 255, 255, 255, 255, 255,
               255, 255, 255, 255, 255, 255, 255, 255], draws = []\<rparr>
     (Some \<lparr>keyPrefix = JString ''my_company'', shortTokenPrefix = JUndefined,
            shortTokenLength = JUndefined, longTokenLength = JUndefined\<rparr>))
   = Inr \<lparr>shortToken = ''jpXCZedGfVQ'', longToken = ''QLbz7JHiBTspS962RLKV8GndWFwiEaqKL'',
          longTokenHash = hashLongToken ''QLbz7JHiBTspS962RLKV8GndWFwiEaqKL'',
          token = ''my_company_jpXCZedGfVQ_QLbz7JHiBTspS962RLKV8GndWFwiEaqKL''\<rparr>
   \<and> length ''jpXCZedGfVQ'' = 11 \<and> length ''QLbz7JHiBTspS962RLKV8GndWFwiEaqKL'' = 33"
  by (simp add: generateAPIKey_def validation_defs randomBytes_8 randomBytes_24
      encode_to_length_undefined bs58_encode_ff8 bs58_encode_ff24 slice_js_all)

text \<open>
  Claim C2 (round trip): for every key that \<open>generateAPIKey\<close> returns,
  \<open>getTokenComponents(key.token)\<close> is the key itself, field by field, and \<open>key.token\<close> is
  \<open>keyPrefix + "_" + shortToken + "_" + longToken\<close>.
\<close>

theorem C2_round_trip:
  assumes "generateAPIKey st options = (Inr key, st')"
  shows "getTokenComponents (token key) =
           Inr \<lparr>shortToken = Some (shortToken key), longToken = longToken key,
                longTokenHash = longTokenHash key, token = token key\<rparr>
         \<and> (\<exists>opts kp. options = Some opts \<and> keyPrefix opts = JString kp
              \<and> token key = kp @ ''_'' @ shortToken key @ ''_'' @ longToken key)"
proof (rule generateAPIKey_Inr [OF assms])
  fix opts kp pre sb lb short0 st1
  assume opts: "options = Some opts" and kp: "keyPrefix opts = JString kp"
    and hash: "longTokenHash key = hashLongToken (longToken key)"
    and tok: "token key = kp @ ''_'' @ shortToken key @ ''_'' @ longToken key"
  from generated_token_parses [OF assms]
  have "getTokenComponents (token key) =
           Inr \<lparr>shortToken = Some (shortToken key), longToken = longToken key,
                longTokenHash = longTokenHash key, token = token key\<rparr>"
    by (simp add: getTokenComponents_def hash)
  with opts kp tok show ?thesis by blast
qed

theorem C2_round_trip_witness:
  "generateAPIKey \<lparr>pool = [1, 2, 3, 4, 255, 255, 255, 255], draws = []\<rparr>
     (Some \<lparr>keyPrefix = JString ''my_company'', shortTokenPrefix = JUndefined,
            shortTokenLength = JNumber (Finite 4), longTokenLength = JNumber (Finite 4)\<rparr>)
   = (Inr \<lparr>shortToken = ''2VfU'', longToken = ''7YXq'', longTokenHash = hashLongToken ''7YXq'',
           token = ''my_company_2VfU_7YXq''\<rparr>,
      \<lparr>pool = [], draws = [4, 4]\<rparr>)
   \<and> getTokenComponents ''my_company_2VfU_7YXq'' =
       Inr \<lparr>shortToken = Some ''2VfU'', longToken = ''7YXq'',
            longTokenHash = hashLongToken ''7YXq'', token = ''my_company_2VfU_7YXq''\<rparr>"
  using C2_round_trip [OF generateAPIKey_example] generateAPIKey_example by simp

text \<open>
  Claim C3: \<open>checkAPIKey(t, h)\<close> never throws, and it is true exactly when the hex SHA-256
  digest of what follows the last \<open>_\<close> of \<open>t\<close> is \<open>h\<close>. For a generated key it is true on
  \<open>key.longTokenHash\<close> and false on every other string.
\<close>

theorem C3_checkAPIKey:
  "checkAPIKey t h = Inr (hashLongToken (rev (takeWhile (\<lambda>c. c \<noteq> CHR ''_'') (rev t))) = h)
   \<and> (generateAPIKey st options = (Inr key, st') \<longrightarrow>
        checkAPIKey (token key) (longTokenHash key) = Inr True
        \<and> (\<forall>s. s \<noteq> longTokenHash key \<longrightarrow> checkAPIKey (token key) s = Inr False))"
proof (intro conjI impI)
  show "checkAPIKey t h = Inr (hashLongToken (rev (takeWhile (\<lambda>c. c \<noteq> CHR ''_'') (rev t))) = h)"
    by (rule checkAPIKey_Inr)
next
  assume gen: "generateAPIKey st options = (Inr key, st')"
  have long: "extractLongToken (token key) = Some (longToken key)"
    by (rule generated_token_parses(1) [OF gen])
  have hash: "longTokenHash key = hashLongToken (longToken key)"
    by (rule generateAPIKey_Inr [OF gen])
  show "checkAPIKey (token key) (longTokenHash key) = Inr True"
    by (simp add: checkAPIKey_def long hash)
  show "\<forall>s. s \<noteq> longTokenHash key \<longrightarrow> checkAPIKey (token key) s = Inr False"
    by (auto simp: checkAPIKey_def long hash)
qed

theorem C3_checkAPIKey_witness:
  "checkAPIKey ''my_company_2VfU_7YXq'' (hashLongToken ''7YXq'') = Inr True
   \<and> checkAPIKey ''my_company_2VfU_7YXq'' ''foo'' = Inr False"
proof -
  have "length ''foo'' \<noteq> length (hashLongToken ''7YXq'')"
    by (simp add: length_hashLongToken)
  then have "''foo'' \<noteq> hashLongToken ''7YXq''"
    by metis
  with C3_checkAPIKey [of "''my_company_2VfU_7YXq''" "''foo''"
      "\<lparr>pool = [1, 2, 3, 4, 255, 255, 255, 255], draws = []\<rparr>"
      "Some \<lparr>keyPrefix = JString ''my_company'', shortTokenPrefix = JUndefined,
            shortTokenLength = JNumber (Finite 4), longTokenLength = JNumber (Finite 4)\<rparr>"
      "\<lparr>shortToken = ''2VfU'', longToken = ''7YXq'', longTokenHash = hashLongToken ''7YXq'',
           token = ''my_company_2VfU_7YXq''\<rparr>"
      "\<lparr>pool = [], draws = [4, 4]\<rparr>"]
    generateAPIKey_example
  show ?thesis by simp
qed

text \<open>
  Claim C4, as amended: when \<open>keyPrefix\<close> and \<open>shortTokenPrefix\<close> have passed, a
  \<open>shortTokenLength\<close> that is present and truthy is rejected with the error naming
  \<open>shortTokenLength\<close> and the range 4 to 24 exactly when it is not a number from 4 to 24;
  the number need not be an integer. The same holds for \<open>longTokenLength\<close> once
  \<open>shortTokenLength\<close> has passed. The claim as written also rejects the non-integer 4.5,
  which the code accepts: there is no test for integers anywhere in the validation.
\<close>

theorem C4_length_validation:
  assumes "\<not> bad_key_prefix (keyPrefix opts)"
    and "\<not> bad_short_token_prefix (shortTokenPrefix opts)"
  shows "(truthy (shortTokenLength opts) \<longrightarrow>
            (fst (generateAPIKey st (Some opts))
               = Inl (Error ''shortTokenLength must be a number between 4 and 24''))
            = (\<not> between_4_and_24 (shortTokenLength opts)))
       \<and> (truthy (longTokenLength opts)
            \<and> (\<not> truthy (shortTokenLength opts) \<or> between_4_and_24 (shortTokenLength opts)) \<longrightarrow>
            (fst (generateAPIKey st (Some opts))
               = Inl (Error ''longTokenLength must be a number between 4 and 24''))
            = (\<not> between_4_and_24 (longTokenLength opts)))"
proof (intro conjI impI)
  assume sl: "truthy (shortTokenLength opts)"
  show "(fst (generateAPIKey st (Some opts))
               = Inl (Error ''shortTokenLength must be a number between 4 and 24''))
            = (\<not> between_4_and_24 (shortTokenLength opts))"
  proof (cases "between_4_and_24 (shortTokenLength opts)")
    case False
    with sl assms show ?thesis
      by (simp add: generateAPIKey_def bad_token_length_iff)
  next
    case True
    show ?thesis
    proof (cases "bad_token_length (longTokenLength opts)")
      case True
      with \<open>between_4_and_24 (shortTokenLength opts)\<close> assms show ?thesis
        by (simp add: generateAPIKey_def bad_token_length_iff)
    next
      case False
      with True assms generateAPIKey_validated [of opts st] show ?thesis
        by (simp add: bad_token_length_iff)
    qed
  qed
next
  assume "truthy (longTokenLength opts)
            \<and> (\<not> truthy (shortTokenLength opts) \<or> between_4_and_24 (shortTokenLength opts))"
  then have ll: "truthy (longTokenLength opts)"
    and sl: "\<not> bad_token_length (shortTokenLength opts)"
    by (auto simp: bad_token_length_iff)
  show "(fst (generateAPIKey st (Some opts))
               = Inl (Error ''longTokenLength must be a number between 4 and 24''))
            = (\<not> between_4_and_24 (longTokenLength opts))"
  proof (cases "between_4_and_24 (longTokenLength opts)")
    case False
    with ll sl assms show ?thesis
      by (simp add: generateAPIKey_def bad_token_length_iff)
  next
    case True
    with sl assms generateAPIKey_validated [of opts st] show ?thesis
      by (simp add: bad_token_length_iff)
  qed
qed

theorem C4_length_validation_witness:
  "fst (generateAPIKey \<lparr>pool = [1, 2, 3, 4, 255, 255, 255, 255], draws = []\<rparr>
     (Some \<lparr>keyPrefix = JString ''my_company'', shortTokenPrefix = JUndefined,
            shortTokenLength = JNumber (Finite 3), longTokenLength = JNumber (Finite 25)\<rparr>))
     = Inl (Error ''shortTokenLength must be a number between 4 and 24'')
   \<and> fst (generateAPIKey \<lparr>pool = [1, 2, 3, 4, 255, 255, 255, 255], draws = []\<rparr>
     (Some \<lparr>keyPrefix = JString ''my_company'', shortTokenPrefix = JUndefined,
            shortTokenLength = JNumber (Finite 4), longTokenLength = JNumber (Finite 25)\<rparr>))
     = Inl (Error ''longTokenLength must be a number between 4 and 24'')"
proof -
  let ?st = "\<lparr>pool = [1, 2, 3, 4, 255, 255, 255, 255], draws = []\<rparr>"
  let ?o1 = "\<lparr>keyPrefix = JString ''my_company'', shortTokenPrefix = JUndefined,
            shortTokenLength = JNumber (Finite 3), longTokenLength = JNumber (Finite 25)\<rparr>"
  let ?o2 = "\<lparr>keyPrefix = JString ''my_company'', shortTokenPrefix = JUndefined,
            shortTokenLength = JNumber (Finite 4), longTokenLength = JNumber (Finite 25)\<rparr>"
  have k1: "\<not> bad_key_prefix (keyPrefix ?o1)" and p1: "\<not> bad_short_token_prefix (shortTokenPrefix ?o1)"
    by (simp_all add: validation_defs)
  have k2: "\<not> bad_key_prefix (keyPrefix ?o2)" and p2: "\<not> bad_short_token_prefix (shortTokenPrefix ?o2)"
    by (simp_all add: validation_defs)
  from C4_length_validation [OF k1 p1, of ?st] C4_length_validation [OF k2 p2, of ?st]
  show ?thesis by simp
qed

theorem C4_length_validation_counterexample:
  "fst (generateAPIKey \<lparr>pool = [1, 2, 3, 4, 255, 255, 255, 255], draws = []\<rparr>
     (Some \<lparr>keyPrefix = JString ''my_company'', shortTokenPrefix = JUndefined,
            shortTokenLength = JNumber (Finite (9 / 2)), longTokenLength = JNumber (Finite 4)\<rparr>))
   = Inr \<lparr>shortToken = ''2VfU'', longToken = ''7YXq'', longTokenHash = hashLongToken ''7YXq'',
          token = ''my_company_2VfU_7YXq''\<rparr>"
  by (simp add: generateAPIKey_def validation_defs randomBytes_4 randomBytes_4_fraction
      encode_to_length_ff4 encode_to_length_1234_fraction slice_js_take trunc_def
      floor_nine_halves)

text \<open>
  Claim C5: a call without options fails with the error ``options object is required'';
  a \<open>keyPrefix\<close> that is absent, not a string, empty, or has a character outside
  \<open>[a-z0-9_]\<close> fails with the error naming \<open>keyPrefix\<close>; and whenever \<open>generateAPIKey\<close>
  fails with one of its own errors, the generator's state is the one it was called with:
  no byte has been drawn.
\<close>

theorem C5_validation_first:
  "generateAPIKey st None = (Inl (Error ''options object is required''), st)
   \<and> ((\<forall>s. keyPrefix opts = JString s \<longrightarrow>
           s = [] \<or> (\<exists>c \<in> set s. \<not> (lower_or_digit c \<or> c = CHR ''_'')))
        \<longrightarrow> generateAPIKey st (Some opts) =
              (Inl (Error ''keyPrefix is required and must only contain lowercase letters and numbers (a-z), or underscore (_)''), st))
   \<and> (fst (generateAPIKey st options) = Inl (Error msg)
        \<longrightarrow> snd (generateAPIKey st options) = st)"
proof (intro conjI impI)
  show "generateAPIKey st None = (Inl (Error ''options object is required''), st)"
    by (simp add: generateAPIKey_def)
next
  assume bad: "\<forall>s. keyPrefix opts = JString s \<longrightarrow>
           s = [] \<or> (\<exists>c \<in> set s. \<not> (lower_or_digit c \<or> c = CHR ''_''))"
  have "bad_key_prefix (keyPrefix opts)"
  proof (cases "keyPrefix opts")
    case (JString s)
    with bad show ?thesis
      by (auto simp: bad_key_prefix_def test_key_prefix_def list_all_iff)
  qed (simp_all add: bad_key_prefix_def)
  then show "generateAPIKey st (Some opts) =
              (Inl (Error ''keyPrefix is required and must only contain lowercase letters and numbers (a-z), or underscore (_)''), st)"
    by (simp add: generateAPIKey_def)
next
  assume err: "fst (generateAPIKey st options) = Inl (Error msg)"
  show "snd (generateAPIKey st options) = st"
  proof (cases options)
    case None
    then show ?thesis by (simp add: generateAPIKey_def)
  next
    case (Some opts)
    show ?thesis
    proof (cases "bad_key_prefix (keyPrefix opts) \<or> bad_short_token_prefix (shortTokenPrefix opts)
        \<or> bad_token_length (shortTokenLength opts) \<or> bad_token_length (longTokenLength opts)")
      case True
      then show ?thesis by (auto simp: generateAPIKey_def Some)
    next
      case False
      have no_error: "r \<noteq> Inl (Error msg)" if "randomBytes s v = (r, s')" for s v r s'
        using that
        by (auto simp: randomBytes_def Let_def split: jsval.splits jsnumber.splits if_splits)
      obtain r1 st1 where d1:
        "randomBytes st (nullish (shortTokenLength opts) (JNumber (Finite 8))) = (r1, st1)"
        by (cases "randomBytes st (nullish (shortTokenLength opts) (JNumber (Finite 8)))")
      obtain r2 st2 where d2:
        "randomBytes st1 (nullish (longTokenLength opts) (JNumber (Finite 24))) = (r2, st2)"
        by (cases "randomBytes st1 (nullish (longTokenLength opts) (JNumber (Finite 24)))")
      from err False d1 d2 no_error [OF d1] no_error [OF d2] have False
        by (auto simp: generateAPIKey_def Some split: sum.splits option.splits)
      then show ?thesis ..
    qed
  qed
qed

theorem C5_validation_first_witness:
  "generateAPIKey \<lparr>pool = [1, 2, 3, 4, 255, 255, 255, 255], draws = []\<rparr>
     (Some \<lparr>keyPrefix = JString ''foo*bar'', shortTokenPrefix = JUndefined,
            shortTokenLength = JUndefined, longTokenLength = JUndefined\<rparr>)
   = (Inl (Error ''keyPrefix is required and must only contain lowercase letters and numbers (a-z), or underscore (_)''),
      \<lparr>pool = [1, 2, 3, 4, 255, 255, 255, 255], draws = []\<rparr>)
   \<and> snd (generateAPIKey \<lparr>pool = [1, 2, 3, 4, 255, 255, 255, 255], draws = []\<rparr>
     (Some \<lparr>keyPrefix = JString ''foo*bar'', shortTokenPrefix = JUndefined,
            shortTokenLength = JUndefined, longTokenLength = JUndefined\<rparr>))
     = \<lparr>pool = [1, 2, 3, 4, 255, 255, 255, 255], draws = []\<rparr>"
proof -
  let ?st = "\<lparr>pool = [1, 2, 3, 4, 255, 255, 255, 255], draws = []\<rparr>"
  let ?opts = "\<lparr>keyPrefix = JString ''foo*bar'', shortTokenPrefix = JUndefined,
            shortTokenLength = JUndefined, longTokenLength = JUndefined\<rparr>"
  let ?msg = "''keyPrefix is required and must only contain lowercase letters and numbers (a-z), or underscore (_)''"
  have bad: "\<forall>s. keyPrefix ?opts = JString s \<longrightarrow>
           s = [] \<or> (\<exists>c \<in> set s. \<not> (lower_or_digit c \<or> c = CHR ''_''))"
    by (simp add: lower_or_digit_def)
  from C5_validation_first [of ?st ?opts "Some ?opts" ?msg] bad
  have gen: "generateAPIKey ?st (Some ?opts) = (Inl (Error ?msg), ?st)"
    by blast
  with C5_validation_first [of ?st ?opts "Some ?opts" ?msg]
  show ?thesis by simp
qed

text \<open>
  Claim C6: on a token with at least two \<open>_\<close>, \<open>extractLongToken\<close> returns what follows the
  last \<open>_\<close> and \<open>extractShortToken\<close> what lies between the last two; so they return
  \<open>key.longToken\<close> and \<open>key.shortToken\<close> on every generated key, whatever the number of
  \<open>_\<close> in its \<open>keyPrefix\<close>.
\<close>

theorem C6_right_anchored:
  "(2 \<le> count_list t (CHR ''_'') \<longrightarrow>
      (\<exists>a b c. t = a @ ''_'' @ b @ ''_'' @ c \<and> CHR ''_'' \<notin> set b \<and> CHR ''_'' \<notin> set c
         \<and> extractLongToken t = Some c \<and> extractShortToken t = Some b))
   \<and> (generateAPIKey st options = (Inr key, st') \<longrightarrow>
        extractLongToken (token key) = Some (longToken key)
        \<and> extractShortToken (token key) = Some (shortToken key))"
proof (intro conjI impI)
  assume "2 \<le> count_list t (CHR ''_'')"
  from two_separators [OF this] obtain a b c where
    t: "t = a @ CHR ''_'' # b @ CHR ''_'' # c" and b: "CHR ''_'' \<notin> set b" and c: "CHR ''_'' \<notin> set c"
    by blast
  have "extractLongToken t = Some c"
    using extractLongToken_segments [OF c, of "a @ ''_'' @ b"] by (simp add: t)
  moreover have "extractShortToken t = Some b"
    using extractShortToken_segments [OF b c, of a] by (simp add: t)
  ultimately show "\<exists>a b c. t = a @ ''_'' @ b @ ''_'' @ c \<and> CHR ''_'' \<notin> set b \<and> CHR ''_'' \<notin> set c
         \<and> extractLongToken t = Some c \<and> extractShortToken t = Some b"
    using t b c by auto
next
  assume gen: "generateAPIKey st options = (Inr key, st')"
  show "extractLongToken (token key) = Some (longToken key)"
    by (rule generated_token_parses(1) [OF gen])
  show "extractShortToken (token key) = Some (shortToken key)"
    by (rule generated_token_parses(2) [OF gen])
qed

theorem C6_right_anchored_witness:
  "2 \<le> count_list ''my_company_2VfU_7YXq'' (CHR ''_'')
   \<and> extractLongToken ''my_company_2VfU_7YXq'' = Some ''7YXq''
   \<and> extractShortToken ''my_company_2VfU_7YXq'' = Some ''2VfU''"
  using C6_right_anchored [of "''my_company_2VfU_7YXq''"
      "\<lparr>pool = [1, 2, 3, 4, 255, 255, 255, 255], draws = []\<rparr>"
      "Some \<lparr>keyPrefix = JString ''my_company'', shortTokenPrefix = JUndefined,
            shortTokenLength = JNumber (Finite 4), longTokenLength = JNumber (Finite 4)\<rparr>"
      "\<lparr>shortToken = ''2VfU'', longToken = ''7YXq'', longTokenHash = hashLongToken ''7YXq'',
           token = ''my_company_2VfU_7YXq''\<rparr>"
      "\<lparr>pool = [], draws = [4, 4]\<rparr>"]
    generateAPIKey_example
  by simp

text \<open>
  Claim C7, as amended: when \<open>shortTokenPrefix\<close> is given and \<open>shortTokenLength\<close> is given
  as a number from 4 to 24, the \<open>shortToken\<close> is the prefix followed by the encoded short
  token, the whole cut to \<open>shortTokenLength\<close> characters, rounded down when it is not an
  integer: it has exactly that many characters, and it starts with the prefix, or with as
  much of the prefix as fits.

  The claim as written also covers a call without \<open>shortTokenLength\<close> and has the
  \<open>shortToken\<close> cut to 8 characters there. The code cuts nothing in that case: the final
  \<open>slice(0, shortTokenLength)\<close> receives \<open>undefined\<close>
  (\<open>generateAPIKey_omitted_short_length\<close>), and the prefix \<open>myprefix123\<close> comes back whole, in
  a \<open>shortToken\<close> of 22 characters.
\<close>

theorem C7_prefix_given_length:
  assumes gen: "generateAPIKey st (Some opts) = (Inr key, st')"
    and given: "shortTokenPrefix opts = JString pre"
    and len: "shortTokenLength opts = JNumber (Finite q)"
    and range: "4 \<le> q" "q \<le> 24"
  shows "shortToken key =
           take (nat \<lfloor>q\<rfloor>)
             (pre @ take (nat \<lfloor>q\<rfloor>)
                (replicate (nat \<lfloor>q\<rfloor> - length (bs58_encode (take (nat \<lfloor>q\<rfloor>) (pool st))))
                   (CHR ''0'')
                 @ bs58_encode (take (nat \<lfloor>q\<rfloor>) (pool st))))
         \<and> length (shortToken key) = nat \<lfloor>q\<rfloor>
         \<and> take (length pre) (shortToken key) = take (nat \<lfloor>q\<rfloor>) pre"
proof (rule generateAPIKey_Inr [OF gen])
  fix opts' kp pre' sb lb short0 st1
  assume "Some opts = Some opts'"
    and pre': "(if truthy (shortTokenPrefix opts') then toString (shortTokenPrefix opts') else Some [])
       = Some pre'"
    and d1: "randomBytes st (nullish (shortTokenLength opts') (JNumber (Finite 8))) = (Inr sb, st1)"
    and s0: "encode_to_length sb (shortTokenLength opts') = Some short0"
    and s: "slice_to (pre' @ short0) (shortTokenLength opts') = Some (shortToken key)"
  then have eq: "opts' = opts" by simp
  from range have q: "0 \<le> q" by simp
  from pre' [unfolded eq] given have pre: "pre' = pre"
    by (cases "pre = []") simp_all
  from randomBytes_Inr [OF d1 [unfolded eq]] len have sb: "sb = take (nat \<lfloor>q\<rfloor>) (pool st)"
    by simp
  from s0 [unfolded eq] len q have short0:
    "short0 = take (nat \<lfloor>q\<rfloor>)
       (replicate (nat \<lfloor>q\<rfloor> - length (bs58_encode sb)) (CHR ''0'') @ bs58_encode sb)"
    by (simp add: encode_to_length_number)
  from s0 [unfolded eq] len q have l0: "length short0 = nat \<lfloor>q\<rfloor>"
    by (simp add: length_encode_to_length_number)
  from s [unfolded eq] len q have short: "shortToken key = take (nat \<lfloor>q\<rfloor>) (pre @ short0)"
    by (simp add: slice_js_take trunc_nonneg pre)
  have full: "shortToken key =
           take (nat \<lfloor>q\<rfloor>)
             (pre @ take (nat \<lfloor>q\<rfloor>)
                (replicate (nat \<lfloor>q\<rfloor> - length (bs58_encode (take (nat \<lfloor>q\<rfloor>) (pool st))))
                   (CHR ''0'')
                 @ bs58_encode (take (nat \<lfloor>q\<rfloor>) (pool st))))"
    by (simp only: short short0 sb)
  have size: "length (shortToken key) = nat \<lfloor>q\<rfloor>"
    by (simp add: short l0)
  have start: "take (length pre) (shortToken key) = take (nat \<lfloor>q\<rfloor>) pre"
    unfolding short by (rule take_prefix_of_take_append)
  from full size start show ?thesis by (intro conjI)
qed

theorem C7_prefix_given_length_witness:
  "generateAPIKey \<lparr>pool = [1, 2, 3, 4, 255, 255, 255, 255], draws = []\<rparr>
     (Some \<lparr>keyPrefix = JString ''my_company'', shortTokenPrefix = JString ''ab'',
            shortTokenLength = JNumber (Finite 4), longTokenLength = JNumber (Finite 4)\<rparr>)
   = (Inr \<lparr>shortToken = ''ab2V'', longToken = ''7YXq'', longTokenHash = hashLongToken ''7YXq'',
           token = ''my_company_ab2V_7YXq''\<rparr>,
      \<lparr>pool = [], draws = [4, 4]\<rparr>)
   \<and> ''ab2V'' = take 4 (''ab'' @ take 4 (replicate (4 - length (bs58_encode [1, 2, 3, 4])) (CHR ''0'')
                                          @ bs58_encode [1, 2, 3, 4]))
   \<and> length ''ab2V'' = 4 \<and> take (length ''ab'') ''ab2V'' = take 4 ''ab''"
proof -
  have range: "(4 :: rat) \<le> 4" "(4 :: rat) \<le> 24" by simp_all
  from C7_prefix_given_length [OF generateAPIKey_prefix_example _ _ range, of "''ab''"]
    generateAPIKey_prefix_example
  show ?thesis by simp
qed

theorem C7_prefix_given_length_counterexample:
  "fst (generateAPIKey
     \<lparr>pool = [255, 255, 255, 255, 255, 255, 255, 255,
               255, 255, 255, 255, 255, 255, 255, 255,
               255, 255, 255, 255, 255, 255, 255, 255,
               255, 255, 255, 255, 255, 255, 255, 255], draws = []\<rparr>
     (Some \<lparr>keyPrefix = JString ''my_company'', shortTokenPrefix = JString ''myprefix123'',
            shortTokenLength = JUndefined, longTokenLength = JUndefined\<rparr>))
   = Inr \<lparr>shortToken = ''myprefix123jpXCZedGfVQ'',
          longToken = ''QLbz7JHiBTspS962RLKV8GndWFwiEaqKL'',
          longTokenHash = hashLongToken ''QLbz7JHiBTspS962RLKV8GndWFwiEaqKL'',
          token = ''my_company_myprefix123jpXCZedGfVQ_QLbz7JHiBTspS962RLKV8GndWFwiEaqKL''\<rparr>
   \<and> length ''myprefix123jpXCZedGfVQ'' = 22"
  by (simp add: generateAPIKey_def validation_defs randomBytes_8 randomBytes_24
      encode_to_length_undefined bs58_encode_ff8 bs58_encode_ff24 slice_js_all)

text \<open>
  Claim C8, as amended: on the token \<open>my_company_BRTRKFsL_51FwqftsmMDHHbJAMEXXHCgG\<close>,
  \<open>getTokenComponents\<close> returns the \<open>shortToken\<close> \<open>BRTRKFsL\<close>, the \<open>longToken\<close>
  \<open>51FwqftsmMDHHbJAMEXXHCgG\<close> and the \<open>longTokenHash\<close>
  \<open>d70d981d87b449c107327c2a2afbf00d4b58070d6ba571aac35d7ea3e7c79f37\<close>, which has 64
  characters, the length of every SHA-256 hex digest, and not 65.
\<close>

theorem C8_known_token:
  "getTokenComponents ''my_company_BRTRKFsL_51FwqftsmMDHHbJAMEXXHCgG'' =
     Inr \<lparr>shortToken = Some ''BRTRKFsL'', longToken = ''51FwqftsmMDHHbJAMEXXHCgG'',
          longTokenHash = ''d70d981d87b449c107327c2a2afbf00d4b58070d6ba571aac35d7ea3e7c79f37'',
          token = ''my_company_BRTRKFsL_51FwqftsmMDHHbJAMEXXHCgG''\<rparr>
   \<and> length (longTokenHash (projr (getTokenComponents
        ''my_company_BRTRKFsL_51FwqftsmMDHHbJAMEXXHCgG''))) = 64"
proof -
  have short: "extractShortToken ''my_company_BRTRKFsL_51FwqftsmMDHHbJAMEXXHCgG'' = Some ''BRTRKFsL''"
    using extractShortToken_segments [of "''BRTRKFsL''" "''51FwqftsmMDHHbJAMEXXHCgG''" "''my_company''"]
    by simp
  have long: "extractLongToken ''my_company_BRTRKFsL_51FwqftsmMDHHbJAMEXXHCgG''
      = Some ''51FwqftsmMDHHbJAMEXXHCgG''"
    using extractLongToken_segments [of "''51FwqftsmMDHHbJAMEXXHCgG''" "''my_company_BRTRKFsL''"]
    by simp
  show ?thesis
    by (simp add: getTokenComponents_def short long hashLongToken_known_token)
qed

theorem C8_known_token_counterexample:
  "length (longTokenHash (projr (getTokenComponents
      ''my_company_BRTRKFsL_51FwqftsmMDHHbJAMEXXHCgG''))) \<noteq> 65"
  by (simp add: getTokenComponents_Inr length_hashLongToken)

text \<open>
  Claim C9: \<open>hashLongToken\<close> is a function of its argument alone, so equal arguments give
  equal hashes; its result is always a string of 64 hexadecimal digits.
\<close>

theorem C9_hash_deterministic:
  "(s1 = s2 \<longrightarrow> hashLongToken s1 = hashLongToken s2)
   \<and> length (hashLongToken s1) = 64
   \<and> set (hashLongToken s1) \<subseteq> set ''0123456789abcdef''"
  using length_hashLongToken [of s1] hashLongToken_hex [of s1] by blast

theorem C9_hash_deterministic_witness:
  "hashLongToken ''7YXq'' = hashLongToken ''7YXq'' \<and> length (hashLongToken ''7YXq'') = 64"
  using C9_hash_deterministic [of "''7YXq''" "''7YXq''"] by blast

text \<open>
  Claim C10: on a token without \<open>_\<close>, \<open>extractLongToken\<close> returns the whole token,
  \<open>extractShortToken\<close> returns \<open>undefined\<close>, neither throws, and \<open>getTokenComponents\<close> returns
  the token as \<open>longToken\<close>, no \<open>shortToken\<close>, and the digest of the whole token.
\<close>

theorem C10_no_separator:
  assumes "CHR ''_'' \<notin> set t"
  shows "extractLongToken t = Some t \<and> extractShortToken t = None
         \<and> getTokenComponents t =
             Inr \<lparr>shortToken = None, longToken = t, longTokenHash = hashLongToken t, token = t\<rparr>"
  using assms
  by (simp add: getTokenComponents_def extractLongToken_last split_no_sep
      extractShortToken_single)

theorem C10_no_separator_witness:
  "CHR ''_'' \<notin> set ''abc'' \<and> extractLongToken ''abc'' = Some ''abc''
   \<and> extractShortToken ''abc'' = None
   \<and> getTokenComponents ''abc'' =
       Inr \<lparr>shortToken = None, longToken = ''abc'', longTokenHash = hashLongToken ''abc'',
            token = ''abc''\<rparr>"
proof -
  have no: "CHR ''_'' \<notin> set ''abc''" by simp
  from C10_no_separator [OF no] no show ?thesis by blast
qed

end
